theory Spec2Isabelle
  imports Complex_Main
begin

section \<open>Data model\<close>

text \<open>
  The program computes with Python and numpy floating-point numbers. They are
  idealised here as the real numbers: rounding, infinities and NaN are not modelled,
  except for the rounding in the section on floating-point rounding below.
  A numpy value is either a scalar or a one-dimensional array.
\<close>

datatype error = KeyError | IndexError | ValueError | ZeroDivisionError

datatype npval = Scalar real | Arr "real list"

text \<open>
  The asset dictionary. The six keys every caller supplies are plain fields; the keys
  \<open>'Charge'\<close> and \<open>'Energy'\<close>, which only the battery has, are optional.
\<close>

record asset =
  Output :: real
  Max_Output :: real
  Min_Output :: real
  Latency :: real
  Ramp_Up :: real
  Ramp_Down :: real
  Charge :: "real option"
  Energy :: "real option"

text \<open>
  The dictionary \<open>{'Up', 'Down'}\<close> returned by the aggregation, and its extension
  \<open>{'Up', 'Down', 'Output'}\<close> returned for one asset (the field \<open>flex_Output\<close> is
  the key \<open>'Output'\<close>).
\<close>

record system_flex =
  Up :: npval
  Down :: npval

record asset_flex = system_flex +
  flex_Output :: real

record system =
  inertia :: real
  freq :: real
  freq_min :: real
  freq_max :: real

record curve =
  lower :: "real list"
  upper :: "real list"

text \<open>
  The result of the solver; the keys \<open>'max dist @time'\<close> and \<open>'min dist @time'\<close>
  are the fields \<open>max_dist_time\<close> and \<open>min_dist_time\<close>. In the program each entry is
  a one-element array, modelled by its element.
\<close>

record disturbance =
  max_dist :: real
  min_dist :: real
  max_dist_time :: real
  min_dist_time :: real

section \<open>numpy operations\<close>

text \<open>
  Broadcasting of two one-dimensional arrays: equal lengths pair up elementwise, a
  one-element array is stretched, and any other pair of lengths raises ValueError.
\<close>

definition broadcast :: "real list \<Rightarrow> real list \<Rightarrow> error + (real \<times> real) list" where
  "broadcast xs ys =
     (if length xs = length ys then Inr (zip xs ys)
      else if length xs = 1 then Inr (map (\<lambda>y. (hd xs, y)) ys)
      else if length ys = 1 then Inr (map (\<lambda>x. (x, hd ys)) xs)
      else Inl ValueError)"

fun np_add :: "npval \<Rightarrow> npval \<Rightarrow> error + npval" where
  "np_add (Scalar a) (Scalar b) = Inr (Scalar (a + b))"
| "np_add (Scalar a) (Arr ys) = Inr (Arr (map (\<lambda>y. a + y) ys))"
| "np_add (Arr xs) (Scalar b) = Inr (Arr (map (\<lambda>x. x + b) xs))"
| "np_add (Arr xs) (Arr ys) =
     (case broadcast xs ys of
        Inl e \<Rightarrow> Inl e
      | Inr ps \<Rightarrow> Inr (Arr (map (\<lambda>(x, y). x + y) ps)))"

text \<open>The comparison \<open>a < b\<close> of an array with a numpy value, elementwise.\<close>

fun np_less :: "real list \<Rightarrow> npval \<Rightarrow> error + bool list" where
  "np_less xs (Scalar b) = Inr (map (\<lambda>x. x < b) xs)"
| "np_less xs (Arr ys) =
     (case broadcast xs ys of
        Inl e \<Rightarrow> Inl e
      | Inr ps \<Rightarrow> Inr (map (\<lambda>(x, y). x < y) ps))"

fun np_greater :: "real list \<Rightarrow> npval \<Rightarrow> error + bool list" where
  "np_greater xs (Scalar b) = Inr (map (\<lambda>x. x > b) xs)"
| "np_greater xs (Arr ys) =
     (case broadcast xs ys of
        Inl e \<Rightarrow> Inl e
      | Inr ps \<Rightarrow> Inr (map (\<lambda>(x, y). x > y) ps))"

text \<open>\<open>cumsum\<close>: the running sums of an array.\<close>

fun cumsum_from :: "real \<Rightarrow> real list \<Rightarrow> real list" where
  "cumsum_from s [] = []"
| "cumsum_from s (x # xs) = (s + x) # cumsum_from (s + x) xs"

definition cumsum :: "real list \<Rightarrow> real list" where
  "cumsum xs = cumsum_from 0 xs"

text \<open>\<open>argwhere\<close>: the indices of the true entries, in increasing order.\<close>

fun argwhere_from :: "nat \<Rightarrow> bool list \<Rightarrow> nat list" where
  "argwhere_from k [] = []"
| "argwhere_from k (b # bs) = (if b then k # argwhere_from (Suc k) bs else argwhere_from (Suc k) bs)"

definition argwhere :: "bool list \<Rightarrow> nat list" where
  "argwhere bs = argwhere_from 0 bs"

text \<open>Indexing with \<open>[0]\<close>, which raises IndexError on an empty array.\<close>

definition first_elem :: "'a list \<Rightarrow> error + 'a" where
  "first_elem xs = (case xs of [] \<Rightarrow> Inl IndexError | x # _ \<Rightarrow> Inr x)"

text \<open>Indexing an array at a nonnegative index.\<close>

definition np_get :: "real list \<Rightarrow> nat \<Rightarrow> error + real" where
  "np_get xs i = (if i < length xs then Inr (xs ! i) else Inl IndexError)"

section \<open>Asset flexibility\<close>

text \<open>
  The ramping capabilities before the energy limit: the linear ramp after the latency,
  then the two \<open>np.where\<close> clamps, in the order of the source.
\<close>

definition ramp_up :: "asset \<Rightarrow> real list \<Rightarrow> real list" where
  "ramp_up a time =
     (let up = map (\<lambda>t. t * Ramp_Up a - Latency a * Ramp_Up a) time;
          up = map (\<lambda>u. if u < 0 then 0 else u) up;
          up = map (\<lambda>u. if u > Max_Output a - Output a then Max_Output a - Output a else u) up
      in up)"

definition ramp_down :: "asset \<Rightarrow> real list \<Rightarrow> real list" where
  "ramp_down a time =
     (let down = map (\<lambda>t. t * - Ramp_Down a - Latency a * - Ramp_Down a) time;
          down = map (\<lambda>d. if d > 0 then 0 else d) down;
          down = map (\<lambda>d. if d < Min_Output a - Output a then Min_Output a - Output a else d) down
      in down)"

text \<open>
  The energy limit of a storage asset:
  \<open>np.where(up.cumsum() * dt > energy_to_empty, 0, up)\<close> and
  \<open>np.where(-down.cumsum() * dt > energy_to_full, 0, down)\<close>.
\<close>

definition limit_up :: "real \<Rightarrow> real \<Rightarrow> real list \<Rightarrow> real list" where
  "limit_up energy_to_empty dt up =
     map (\<lambda>(c, u). if c * dt > energy_to_empty then 0 else u) (zip (cumsum up) up)"

definition limit_down :: "real \<Rightarrow> real \<Rightarrow> real list \<Rightarrow> real list" where
  "limit_down energy_to_full dt down =
     map (\<lambda>(c, d). if - c * dt > energy_to_full then 0 else d) (zip (cumsum down) down)"

definition get_asset_flexibility :: "asset option \<Rightarrow> real list \<Rightarrow> error + asset_flex" where
  "get_asset_flexibility asset time =
     (case asset of
        None \<Rightarrow> Inr \<lparr>Up = Scalar 0, Down = Scalar 0, flex_Output = 0\<rparr>
      | Some a \<Rightarrow>
          (let up = ramp_up a time; down = ramp_down a time in
           case Charge a of
             None \<Rightarrow> Inr \<lparr>Up = Arr up, Down = Arr down, flex_Output = Output a\<rparr>
           | Some charge \<Rightarrow>
               (case Energy a of
                  None \<Rightarrow> Inl KeyError
                | Some energy \<Rightarrow>
                    (let energy_to_empty = charge * energy / 100;
                         energy_to_full = energy - energy_to_empty
                     in if length time < 2 then Inl IndexError
                        else
                          (let dt = time ! 1 - time ! 0 in
                           Inr \<lparr>Up = Arr (limit_up energy_to_empty dt up),
                                Down = Arr (limit_down energy_to_full dt down),
                                flex_Output = Output a\<rparr>)))))"

section \<open>Power disturbance curve\<close>

text \<open>
  The scalars of the system are Python floats, so the division that computes \<open>J\<close>
  raises ZeroDivisionError when the squared angular frequency is zero. The division by
  the time grid is numpy's, which does not raise; at a grid point \<open>0\<close> numpy gives an
  infinity or NaN, which the reals do not have, so the statements about the curve are
  made at nonzero grid points.
\<close>

definition get_power_disturbance_curve :: "real list \<Rightarrow> system \<Rightarrow> error + curve" where
  "get_power_disturbance_curve time sys =
     (let K = inertia sys in
      if (4 * pi * freq sys / 2) ^ 2 = 0 then Inl ZeroDivisionError
      else
        (let J = (2 * K) / ((4 * pi * freq sys / 2) ^ 2);
             K_m = (1 / 2 * J) * (4 * pi * freq_min sys / 2) ^ 2;
             K_M = (1 / 2 * J) * (4 * pi * freq_max sys / 2) ^ 2;
             K_a_m = K - K_m;
             K_a_M = K_M - K;
             P_d_m = map (\<lambda>t. K_a_m / t) time;
             P_d_M = map (\<lambda>t. - K_a_M / t) time
         in Inr \<lparr>lower = P_d_M, upper = P_d_m\<rparr>))"

section \<open>Aggregation\<close>

text \<open>An exception raised by one step is raised by the whole expression.\<close>

definition and_then :: "error + 'a \<Rightarrow> ('a \<Rightarrow> error + 'b) \<Rightarrow> error + 'b" where
  "and_then r f = (case r of Inl e \<Rightarrow> Inl e | Inr x \<Rightarrow> f x)"

text \<open>The sum \<open>a + b + c + d + e\<close> of Python, which associates to the left.\<close>

definition np_add5 :: "npval \<Rightarrow> npval \<Rightarrow> npval \<Rightarrow> npval \<Rightarrow> npval \<Rightarrow> error + npval" where
  "np_add5 a b c d e =
     and_then (and_then (and_then (np_add a b) (\<lambda>x. np_add x c)) (\<lambda>x. np_add x d))
       (\<lambda>x. np_add x e)"

definition flexibility_aggreagation ::
  "asset_flex \<Rightarrow> asset_flex \<Rightarrow> asset_flex \<Rightarrow> asset_flex \<Rightarrow> asset_flex \<Rightarrow> error + system_flex" where
  "flexibility_aggreagation gas_fired_flex hydro_flex solar_flex wind_flex battery_flex =
     and_then
       (np_add5 (Up gas_fired_flex) (Up hydro_flex) (Up solar_flex) (Up wind_flex)
          (Up battery_flex))
       (\<lambda>flex_up.
          and_then
            (np_add5 (Down gas_fired_flex) (Down hydro_flex) (Down solar_flex) (Down wind_flex)
               (Down battery_flex))
            (\<lambda>flex_down. Inr \<lparr>Up = flex_up, Down = flex_down\<rparr>))"

section \<open>Disturbance solver\<close>

definition get_max_min_disturbance ::
  "system_flex \<Rightarrow> curve \<Rightarrow> real list \<Rightarrow> error + disturbance" where
  "get_max_min_disturbance system_flex disturbance_curve time =
     and_then (np_greater (lower disturbance_curve) (Down system_flex)) (\<lambda>is_down.
     and_then (first_elem (argwhere is_down)) (\<lambda>idx_down.
     and_then (np_less (upper disturbance_curve) (Up system_flex)) (\<lambda>is_up.
     and_then (first_elem (argwhere is_up)) (\<lambda>idx_up.
     and_then (np_get (upper disturbance_curve) idx_up) (\<lambda>max_d.
     and_then (np_get (lower disturbance_curve) idx_down) (\<lambda>min_d.
     and_then (np_get time idx_up) (\<lambda>max_t.
     and_then (np_get time idx_down) (\<lambda>min_t.
       Inr \<lparr>max_dist = max_d, min_dist = min_d,
            max_dist_time = max_t, min_dist_time = min_t\<rparr>))))))))"

section \<open>Floating-point rounding\<close>

text \<open>
  Whether an envelope stays within the operating range depends on how the program rounds
  the headroom \<open>Max Output - Output\<close>. For that question the asset flexibility is
  modelled a second time, with the result of every arithmetic operation passed through a
  rounding function \<open>rnd\<close>; comparisons and negation are exact. With the identity for
  \<open>rnd\<close> this is the model above.
\<close>

definition ramp_up_fl :: "(real \<Rightarrow> real) \<Rightarrow> asset \<Rightarrow> real list \<Rightarrow> real list" where
  "ramp_up_fl rnd a time =
     (let up = map (\<lambda>t. rnd (rnd (t * Ramp_Up a) - rnd (Latency a * Ramp_Up a))) time;
          up = map (\<lambda>u. if u < 0 then 0 else u) up;
          up = map (\<lambda>u. if u > rnd (Max_Output a - Output a)
                          then rnd (Max_Output a - Output a) else u) up
      in up)"

definition ramp_down_fl :: "(real \<Rightarrow> real) \<Rightarrow> asset \<Rightarrow> real list \<Rightarrow> real list" where
  "ramp_down_fl rnd a time =
     (let down = map (\<lambda>t. rnd (rnd (t * - Ramp_Down a) - rnd (Latency a * - Ramp_Down a))) time;
          down = map (\<lambda>d. if d > 0 then 0 else d) down;
          down = map (\<lambda>d. if d < rnd (Min_Output a - Output a)
                            then rnd (Min_Output a - Output a) else d) down
      in down)"

fun cumsum_from_fl :: "(real \<Rightarrow> real) \<Rightarrow> real \<Rightarrow> real list \<Rightarrow> real list" where
  "cumsum_from_fl rnd s [] = []"
| "cumsum_from_fl rnd s (x # xs) = rnd (s + x) # cumsum_from_fl rnd (rnd (s + x)) xs"

definition cumsum_fl :: "(real \<Rightarrow> real) \<Rightarrow> real list \<Rightarrow> real list" where
  "cumsum_fl rnd xs = (case xs of [] \<Rightarrow> [] | x # ys \<Rightarrow> x # cumsum_from_fl rnd x ys)"

definition limit_up_fl :: "(real \<Rightarrow> real) \<Rightarrow> real \<Rightarrow> real \<Rightarrow> real list \<Rightarrow> real list" where
  "limit_up_fl rnd energy_to_empty dt up =
     map (\<lambda>(c, u). if rnd (c * dt) > energy_to_empty then 0 else u) (zip (cumsum_fl rnd up) up)"

definition limit_down_fl :: "(real \<Rightarrow> real) \<Rightarrow> real \<Rightarrow> real \<Rightarrow> real list \<Rightarrow> real list" where
  "limit_down_fl rnd energy_to_full dt down =
     map (\<lambda>(c, d). if rnd (- c * dt) > energy_to_full then 0 else d)
       (zip (cumsum_fl rnd down) down)"

definition get_asset_flexibility_fl ::
  "(real \<Rightarrow> real) \<Rightarrow> asset option \<Rightarrow> real list \<Rightarrow> error + asset_flex" where
  "get_asset_flexibility_fl rnd asset time =
     (case asset of
        None \<Rightarrow> Inr \<lparr>Up = Scalar 0, Down = Scalar 0, flex_Output = 0\<rparr>
      | Some a \<Rightarrow>
          (let up = ramp_up_fl rnd a time; down = ramp_down_fl rnd a time in
           case Charge a of
             None \<Rightarrow> Inr \<lparr>Up = Arr up, Down = Arr down, flex_Output = Output a\<rparr>
           | Some charge \<Rightarrow>
               (case Energy a of
                  None \<Rightarrow> Inl KeyError
                | Some energy \<Rightarrow>
                    (let energy_to_empty = rnd (rnd (charge * energy) / 100);
                         energy_to_full = rnd (energy - energy_to_empty)
                     in if length time < 2 then Inl IndexError
                        else
                          (let dt = rnd (time ! 1 - time ! 0) in
                           Inr \<lparr>Up = Arr (limit_up_fl rnd energy_to_empty dt up),
                                Down = Arr (limit_down_fl rnd energy_to_full dt down),
                                flex_Output = Output a\<rparr>)))))"

text \<open>
  The rounding of float64: to the nearest number with a significand of 53 bits, ties to
  the even one, with the exponent bounded below for the subnormal numbers. Overflow to
  infinity is not modelled.
\<close>

definition pow2 :: "int \<Rightarrow> real" where
  "pow2 e = (if 0 \<le> e then 2 ^ nat e else 1 / 2 ^ nat (- e))"

definition round_half_even :: "real \<Rightarrow> int" where
  "round_half_even x =
     (let f = \<lfloor>x\<rfloor>; d = x - of_int f
      in if d < 1 / 2 then f else if d > 1 / 2 then f + 1 else if even f then f else f + 1)"

definition binary64 :: "real \<Rightarrow> real" where
  "binary64 x =
     (if x = 0 then 0
      else
        (let e = max \<lfloor>log 2 \<bar>x\<bar>\<rfloor> (- 1022); ulp = pow2 (e - 52)
         in of_int (round_half_even (x / ulp)) * ulp))"

section \<open>Vocabulary of the statements\<close>

text \<open>
  The aggregation of a fleet without one of its five assets: the same left-to-right
  elementwise sums as \<open>flexibility_aggreagation\<close>, over the four remaining envelopes.
\<close>

definition np_add4 :: "npval \<Rightarrow> npval \<Rightarrow> npval \<Rightarrow> npval \<Rightarrow> error + npval" where
  "np_add4 a b c d = and_then (and_then (np_add a b) (\<lambda>x. np_add x c)) (\<lambda>x. np_add x d)"

definition aggregation_of_four ::
  "asset_flex \<Rightarrow> asset_flex \<Rightarrow> asset_flex \<Rightarrow> asset_flex \<Rightarrow> error + system_flex" where
  "aggregation_of_four a b c d =
     and_then (np_add4 (Up a) (Up b) (Up c) (Up d)) (\<lambda>flex_up.
     and_then (np_add4 (Down a) (Down b) (Down c) (Down d)) (\<lambda>flex_down.
       Inr \<lparr>Up = flex_up, Down = flex_down\<rparr>))"

text \<open>The gas-fired and hydro assets with the default values of the input widgets.\<close>

definition gas_asset :: asset where
  "gas_asset = \<lparr>Output = 7, Max_Output = 10, Min_Output = 0, Latency = 1, Ramp_Up = 1,
     Ramp_Down = 3 / 2, Charge = None, Energy = None\<rparr>"

definition hydro_asset :: asset where
  "hydro_asset = \<lparr>Output = 5, Max_Output = 10, Min_Output = 0, Latency = 1, Ramp_Up = 1,
     Ramp_Down = 5 / 2, Charge = None, Energy = None\<rparr>"

text \<open>
  The energy of the running sum: the sum of the entries up to index \<open>k\<close>, times the
  step \<open>dt\<close>.
\<close>

definition running_energy :: "real list \<Rightarrow> real \<Rightarrow> nat \<Rightarrow> real" where
  "running_energy xs dt k = sum_list (take (Suc k) xs) * dt"

text \<open>
  An asset that breaks every rule of the data model: negative ramp rates, negative
  latency, output above the maximum.
\<close>

definition invalid_asset :: asset where
  "invalid_asset = \<lparr>Output = 20, Max_Output = 10, Min_Output = 0, Latency = - 1, Ramp_Up = - 1,
     Ramp_Down = - 2, Charge = None, Energy = None\<rparr>"

text \<open>Two storage assets: one half charged with a small capacity, one empty.\<close>

definition battery_asset :: asset where
  "battery_asset = \<lparr>Output = 0, Max_Output = 1, Min_Output = - 1, Latency = 0, Ramp_Up = 1,
     Ramp_Down = 1, Charge = Some 50, Energy = Some 4\<rparr>"

definition empty_battery :: asset where
  "empty_battery = \<lparr>Output = 0, Max_Output = 1, Min_Output = - 1, Latency = 0, Ramp_Up = 1,
     Ramp_Down = 1, Charge = Some 0, Energy = Some 1000\<rparr>"

text \<open>
  The system with the default values of the input widgets, and a system whose squared
  frequency is the mean of the squared limits.
\<close>

definition default_system :: system where
  "default_system = \<lparr>inertia = 50, freq = 60, freq_min = 59, freq_max = 61\<rparr>"

definition rms_system :: system where
  "rms_system = \<lparr>inertia = 50, freq = 5, freq_min = 1, freq_max = 7\<rparr>"

text \<open>A disturbance curve and two system envelopes over the grid \<open>[1, 2, 3]\<close>.\<close>

definition sample_curve :: curve where
  "sample_curve = \<lparr>lower = [- 5, - 2, - 1], upper = [5, 2, 1]\<rparr>"

definition sample_flex :: system_flex where
  "sample_flex = \<lparr>Up = Arr [0, 2, 3], Down = Arr [0, - 3, - 3]\<rparr>"

definition tiny_flex :: system_flex where
  "tiny_flex = \<lparr>Up = Arr [0, 0, 0], Down = Arr [0, - 3, - 3]\<rparr>"

text \<open>
  An asset whose output \<open>0.3\<close> and maximum \<open>0.9\<close> are the float64 numbers that
  Python reads from these literals.
\<close>

definition rounding_asset :: asset where
  "rounding_asset = \<lparr>Output = binary64 (3 / 10), Max_Output = binary64 (9 / 10), Min_Output = 0,
     Latency = 0, Ramp_Up = 1, Ramp_Down = 1, Charge = None, Energy = None\<rparr>"

section \<open>Basic facts\<close>

lemma and_then_Inl [simp]: "and_then (Inl e) f = Inl e"
  by (simp add: and_then_def)

lemma and_then_Inr [simp]: "and_then (Inr x) f = f x"
  by (simp add: and_then_def)

lemma and_then_return [simp]: "and_then r Inr = r"
  by (cases r) simp_all

lemma np_add_zero_left [simp]: "np_add (Scalar 0) v = Inr v"
  by (cases v) (simp_all add: map_idI)

lemma np_add_zero_right [simp]: "np_add v (Scalar 0) = Inr v"
  by (cases v) (simp_all add: map_idI)

lemma np_add5_zero:
  "np_add5 (Scalar 0) a b c d = np_add4 a b c d"
  "np_add5 a (Scalar 0) b c d = np_add4 a b c d"
  "np_add5 a b (Scalar 0) c d = np_add4 a b c d"
  "np_add5 a b c (Scalar 0) d = np_add4 a b c d"
  "np_add5 a b c d (Scalar 0) = np_add4 a b c d"
  by (simp_all add: np_add5_def np_add4_def)

lemma length_ramp_up [simp]: "length (ramp_up a time) = length time"
  by (simp add: ramp_up_def Let_def)

lemma length_ramp_down [simp]: "length (ramp_down a time) = length time"
  by (simp add: ramp_down_def Let_def)

lemma ramp_up_nth:
  "i < length time \<Longrightarrow>
     ramp_up a time ! i
       = min (max (Ramp_Up a * (time ! i - Latency a)) 0) (Max_Output a - Output a)"
proof -
  assume i: "i < length time"
  have eq: "time ! i * Ramp_Up a - Latency a * Ramp_Up a = Ramp_Up a * (time ! i - Latency a)"
    by (simp add: algebra_simps)
  show ?thesis
    using i unfolding ramp_up_def Let_def eq [symmetric] by (simp add: min_def max_def)
qed

lemma ramp_down_nth:
  "i < length time \<Longrightarrow>
     ramp_down a time ! i
       = max (min (- Ramp_Down a * (time ! i - Latency a)) 0) (Min_Output a - Output a)"
proof -
  assume i: "i < length time"
  have eq: "time ! i * - Ramp_Down a - Latency a * - Ramp_Down a
      = - Ramp_Down a * (time ! i - Latency a)"
    by (simp add: algebra_simps)
  show ?thesis
    using i unfolding ramp_down_def Let_def eq [symmetric] by (simp add: min_def max_def)
qed

lemma length_cumsum_from [simp]: "length (cumsum_from s xs) = length xs"
  by (induction xs arbitrary: s) simp_all

lemma length_cumsum [simp]: "length (cumsum xs) = length xs"
  by (simp add: cumsum_def)

lemma cumsum_from_nth: "i < length xs \<Longrightarrow> cumsum_from s xs ! i = s + sum_list (take (Suc i) xs)"
proof (induction xs arbitrary: s i)
  case Nil
  then show ?case by simp
next
  case (Cons x xs)
  show ?case
  proof (cases i)
    case 0
    then show ?thesis by simp
  next
    case (Suc i')
    with Cons.prems have "i' < length xs" by simp
    from Cons.IH [OF this, of "s + x"] Suc show ?thesis by simp
  qed
qed

lemma cumsum_nth: "i < length xs \<Longrightarrow> cumsum xs ! i * dt = running_energy xs dt i"
  by (simp add: cumsum_def cumsum_from_nth running_energy_def)

lemma running_sum_split:
  "k \<le> i \<Longrightarrow> sum_list (take (Suc i) (xs :: real list))
     = sum_list (take (Suc k) xs) + sum_list (take (i - k) (drop (Suc k) xs))"
proof -
  assume "k \<le> i"
  then have "Suc i = Suc k + (i - k)" by simp
  then have "take (Suc i) xs = take (Suc k) xs @ take (i - k) (drop (Suc k) xs)"
    by (simp only: take_add)
  then show ?thesis by simp
qed

lemma running_sum_mono:
  fixes xs :: "real list"
  assumes "\<forall>x\<in>set xs. 0 \<le> x" and "k \<le> i"
  shows "sum_list (take (Suc k) xs) \<le> sum_list (take (Suc i) xs)"
proof -
  have "0 \<le> sum_list (take (i - k) (drop (Suc k) xs))"
  proof (rule sum_list_nonneg)
    fix x assume "x \<in> set (take (i - k) (drop (Suc k) xs))"
    then have "x \<in> set xs" by (blast dest: in_set_takeD in_set_dropD)
    with assms(1) show "0 \<le> x" by blast
  qed
  with running_sum_split [OF assms(2), of xs] show ?thesis by simp
qed

lemma running_sum_antimono:
  fixes xs :: "real list"
  assumes "\<forall>x\<in>set xs. x \<le> 0" and "k \<le> i"
  shows "sum_list (take (Suc i) xs) \<le> sum_list (take (Suc k) xs)"
proof -
  have "sum_list (take (i - k) (drop (Suc k) xs)) \<le> 0"
  proof (rule sum_list_nonpos)
    fix x assume "x \<in> set (take (i - k) (drop (Suc k) xs))"
    then have "x \<in> set xs" by (blast dest: in_set_takeD in_set_dropD)
    with assms(1) show "x \<le> 0" by blast
  qed
  with running_sum_split [OF assms(2), of xs] show ?thesis by simp
qed

lemma running_energy_mono:
  assumes "\<forall>x\<in>set xs. 0 \<le> x" and "0 \<le> dt" and "k \<le> i"
  shows "running_energy xs dt k \<le> running_energy xs dt i"
  unfolding running_energy_def
  using running_sum_mono [OF assms(1,3)] assms(2) by (rule mult_right_mono)

lemma running_energy_antimono:
  assumes "\<forall>x\<in>set xs. x \<le> 0" and "0 \<le> dt" and "k \<le> i"
  shows "running_energy xs dt i \<le> running_energy xs dt k"
  unfolding running_energy_def
  using running_sum_antimono [OF assms(1,3)] assms(2) by (rule mult_right_mono)

lemma limit_up_nth:
  "i < length up \<Longrightarrow>
     limit_up e dt up ! i = (if running_energy up dt i > e then 0 else up ! i)"
  by (simp add: limit_up_def cumsum_nth)

lemma limit_down_nth:
  "i < length down \<Longrightarrow>
     limit_down e dt down ! i = (if - running_energy down dt i > e then 0 else down ! i)"
  by (simp add: limit_down_def cumsum_nth [symmetric])

lemma length_limit_up [simp]: "length (limit_up e dt up) = length up"
  by (simp add: limit_up_def)

lemma length_limit_down [simp]: "length (limit_down e dt down) = length down"
  by (simp add: limit_down_def)

lemma get_asset_flexibility_storage:
  assumes "Charge a = Some charge" and "Energy a = Some energy" and "2 \<le> length time"
  shows "get_asset_flexibility (Some a) time
     = Inr \<lparr>Up = Arr (limit_up (charge * energy / 100) (time ! 1 - time ! 0) (ramp_up a time)),
            Down = Arr (limit_down (energy - charge * energy / 100) (time ! 1 - time ! 0)
                         (ramp_down a time)),
            flex_Output = Output a\<rparr>"
  using assms by (simp add: get_asset_flexibility_def Let_def)

lemma argwhere_from_first:
  "j < length bs \<Longrightarrow> bs ! j \<Longrightarrow> (\<forall>m<j. \<not> bs ! m)
     \<Longrightarrow> \<exists>rest. argwhere_from k bs = (k + j) # rest"
proof (induction bs arbitrary: k j)
  case Nil
  then show ?case by simp
next
  case (Cons b bs)
  show ?case
  proof (cases j)
    case 0
    with Cons.prems show ?thesis by simp
  next
    case (Suc j')
    with Cons.prems have b: "\<not> b" by auto
    from Suc Cons.prems have "j' < length bs" "bs ! j'" "\<forall>m<j'. \<not> bs ! m"
      by auto
    from Cons.IH [OF this] obtain rest where "argwhere_from (Suc k) bs = (Suc k + j') # rest"
      by blast
    with b Suc show ?thesis by simp
  qed
qed

lemma argwhere_from_empty:
  "argwhere_from k bs = [] \<longleftrightarrow> (\<forall>m<length bs. \<not> bs ! m)"
proof (induction bs arbitrary: k)
  case Nil
  then show ?case by simp
next
  case (Cons b bs)
  show ?case
  proof (cases b)
    case True
    then show ?thesis by auto
  next
    case False
    then show ?thesis
      using Cons.IH [of "Suc k"] by (auto simp add: less_Suc_eq_0_disj)
  qed
qed

lemma first_argwhere_least:
  "j < length bs \<Longrightarrow> bs ! j \<Longrightarrow> (\<forall>m<j. \<not> bs ! m) \<Longrightarrow> first_elem (argwhere bs) = Inr j"
  using argwhere_from_first [of j bs 0] by (auto simp add: first_elem_def argwhere_def)

lemma first_argwhere_none:
  "first_elem (argwhere bs) = Inl IndexError \<longleftrightarrow> (\<forall>m<length bs. \<not> bs ! m)"
  using argwhere_from_empty [of 0 bs]
  by (auto simp add: first_elem_def argwhere_def split: list.splits)

lemma first_argwhere_some:
  "(\<exists>j. first_elem (argwhere bs) = Inr j) \<longleftrightarrow> (\<exists>m<length bs. bs ! m)"
  using argwhere_from_empty [of 0 bs]
  by (auto simp add: first_elem_def argwhere_def split: list.splits)

lemma first_argwhere_bound:
  "first_elem (argwhere bs) = Inr j \<Longrightarrow> j < length bs"
proof -
  assume a: "first_elem (argwhere bs) = Inr j"
  then have "\<exists>m<length bs. bs ! m" using first_argwhere_some [of bs] by blast
  then obtain m where m: "m < length bs" "bs ! m" by blast
  define l where "l = (LEAST m. m < length bs \<and> bs ! m)"
  have l: "l < length bs \<and> bs ! l" unfolding l_def using m by (metis (mono_tags, lifting) LeastI)
  have "\<forall>k<l. \<not> bs ! k"
  proof (intro allI impI)
    fix k assume "k < l"
    with l have "k < length bs" by simp
    with \<open>k < l\<close> show "\<not> bs ! k" unfolding l_def using not_less_Least by blast
  qed
  with l have "first_elem (argwhere bs) = Inr l" using first_argwhere_least by blast
  with a l show ?thesis by simp
qed

lemma angular_frequency_zero: "(4 * pi * f / 2) ^ 2 = 0 \<longleftrightarrow> f = 0"
  by simp

lemma kinetic_energy_ratio:
  assumes "f \<noteq> 0"
  shows "(1 / 2 * ((2 * K) / ((4 * pi * f / 2) ^ 2))) * (4 * pi * g / 2) ^ 2 = K * (g / f) ^ 2"
proof -
  have "(4 * pi * g / 2) ^ 2 = (2 * pi) ^ 2 * g ^ 2" "(4 * pi * f / 2) ^ 2 = (2 * pi) ^ 2 * f ^ 2"
    by (simp_all add: power_mult_distrib)
  moreover have "(2 * pi) ^ 2 \<noteq> 0" by simp
  ultimately show ?thesis
    using assms by (simp add: power_divide field_simps)
qed

lemma get_power_disturbance_curve_eq:
  assumes "freq sys \<noteq> 0"
  shows "get_power_disturbance_curve time sys
    = Inr \<lparr>lower = map (\<lambda>t. - (inertia sys * (freq_max sys / freq sys) ^ 2 - inertia sys) / t) time,
           upper = map (\<lambda>t. (inertia sys - inertia sys * (freq_min sys / freq sys) ^ 2) / t) time\<rparr>"
  unfolding get_power_disturbance_curve_def Let_def kinetic_energy_ratio [OF assms]
  using assms by simp

lemma sum_list_neg:
  fixes xs :: "real list"
  shows "xs \<noteq> [] \<Longrightarrow> \<forall>x\<in>set xs. x < 0 \<Longrightarrow> sum_list xs < 0"
proof (induction xs)
  case Nil
  then show ?case by simp
next
  case (Cons x xs)
  show ?case
  proof (cases "xs = []")
    case True
    with Cons.prems show ?thesis by simp
  next
    case False
    with Cons have "sum_list xs < 0" by simp
    moreover from Cons.prems have "x < 0" by simp
    ultimately show ?thesis by simp
  qed
qed

lemma ramp_up_sign:
  "(\<forall>u\<in>set (ramp_up a time). 0 \<le> u) \<or> (\<forall>u\<in>set (ramp_up a time). u < 0)"
proof (cases "0 \<le> Max_Output a - Output a")
  case True
  have "0 \<le> u" if "u \<in> set (ramp_up a time)" for u
  proof -
    from that obtain i where "i < length time" "u = ramp_up a time ! i"
      by (auto simp add: in_set_conv_nth)
    with True show ?thesis by (simp add: ramp_up_nth)
  qed
  then show ?thesis by blast
next
  case False
  have "u < 0" if "u \<in> set (ramp_up a time)" for u
  proof -
    from that obtain i where "i < length time" "u = ramp_up a time ! i"
      by (auto simp add: in_set_conv_nth)
    with False show ?thesis by (simp add: ramp_up_nth min_def)
  qed
  then show ?thesis by blast
qed

lemma running_energy_positive_persists:
  assumes sign: "(\<forall>x\<in>set xs. 0 \<le> x) \<or> (\<forall>x\<in>set xs. x < 0)"
    and ki: "k \<le> i" and i: "i < length xs" and pos: "running_energy xs dt k > 0"
  shows "running_energy xs dt i > 0"
  using sign
proof
  assume nonneg: "\<forall>x\<in>set xs. 0 \<le> x"
  have "0 \<le> sum_list (take (Suc k) xs)"
  proof (rule sum_list_nonneg)
    fix x assume "x \<in> set (take (Suc k) xs)"
    then have "x \<in> set xs" by (rule in_set_takeD)
    with nonneg show "0 \<le> x" by blast
  qed
  with pos have "0 < sum_list (take (Suc k) xs)" and dt: "0 < dt"
    by (auto simp add: running_energy_def zero_less_mult_iff)
  with running_sum_mono [OF nonneg ki] have "0 < sum_list (take (Suc i) xs)"
    by simp
  with dt show ?thesis
    by (simp add: running_energy_def)
next
  assume neg: "\<forall>x\<in>set xs. x < 0"
  have s: "sum_list (take (Suc j) xs) < 0" if "j < length xs" for j
  proof (rule sum_list_neg)
    from that show "take (Suc j) xs \<noteq> []" by auto
    show "\<forall>x\<in>set (take (Suc j) xs). x < 0"
      using neg by (blast dest: in_set_takeD)
  qed
  from ki i have "k < length xs" by simp
  from s [OF this] pos have dt: "dt < 0"
    by (auto simp add: running_energy_def zero_less_mult_iff)
  from s [OF i] dt show ?thesis
    by (simp add: running_energy_def mult_neg_neg)
qed

lemma midpoint_square_mean:
  fixes a b :: real
  shows "2 * ((a + b) / 2) ^ 2 = a ^ 2 + b ^ 2 \<longleftrightarrow> a = b"
proof -
  have "a ^ 2 + b ^ 2 - 2 * ((a + b) / 2) ^ 2 = (a - b) ^ 2 / 2"
    by (simp add: power2_eq_square field_simps)
  then have "2 * ((a + b) / 2) ^ 2 = a ^ 2 + b ^ 2 \<longleftrightarrow> (a - b) ^ 2 / 2 = 0"
    by linarith
  then show ?thesis by simp
qed

lemma pow2_powr: "pow2 e = 2 powr of_int e"
  by (simp add: pow2_def powr_real_of_int inverse_eq_divide)

lemma pow2_pos [simp]: "0 < pow2 e"
  by (simp add: pow2_powr)

lemma binary64_eval:
  assumes "pow2 e \<le> \<bar>x\<bar>" and "\<bar>x\<bar> < pow2 (e + 1)" and "- 1022 \<le> e"
  shows "binary64 x = of_int (round_half_even (x / pow2 (e - 52))) * pow2 (e - 52)"
proof -
  from assms(1) pow2_pos [of e] have x: "0 < \<bar>x\<bar>" by linarith
  then have "\<lfloor>log 2 \<bar>x\<bar>\<rfloor> = e"
    using assms(1,2) by (simp add: floor_log_eq_powr_iff pow2_powr add.commute)
  with x assms(3) show ?thesis
    by (simp add: binary64_def Let_def max_def)
qed

lemma round_half_even_sign:
  "0 \<le> x \<Longrightarrow> 0 \<le> round_half_even x" "x \<le> 0 \<Longrightarrow> round_half_even x \<le> 0"
proof -
  assume "0 \<le> x"
  then have "0 \<le> \<lfloor>x\<rfloor>" by simp
  then show "0 \<le> round_half_even x"
    by (simp add: round_half_even_def Let_def)
next
  assume x: "x \<le> 0"
  then have f: "\<lfloor>x\<rfloor> \<le> 0" by simp
  show "round_half_even x \<le> 0"
  proof (cases "x - of_int \<lfloor>x\<rfloor> < 1 / 2")
    case True
    with f show ?thesis by (simp add: round_half_even_def Let_def)
  next
    case False
    with x have "of_int \<lfloor>x\<rfloor> < (0::real)" by linarith
    then have "\<lfloor>x\<rfloor> < 0" by (simp only: of_int_less_0_iff)
    then have "\<lfloor>x\<rfloor> + 1 \<le> 0" by linarith
    with f show ?thesis
      unfolding round_half_even_def Let_def by (simp only: split: if_splits) simp
  qed
qed

lemma binary64_sign:
  "0 \<le> x \<Longrightarrow> 0 \<le> binary64 x" "x \<le> 0 \<Longrightarrow> binary64 x \<le> 0"
proof -
  assume "0 \<le> x"
  then show "0 \<le> binary64 x"
    by (simp add: binary64_def Let_def round_half_even_sign(1) less_imp_le)
next
  assume "x \<le> 0"
  then have "round_half_even (x / pow2 e) \<le> 0" for e
    by (intro round_half_even_sign(2)) (simp add: divide_le_0_iff less_imp_le)
  then show "binary64 x \<le> 0"
    by (simp add: binary64_def Let_def mult_le_0_iff less_imp_le)
qed

lemma binary64_3_10: "binary64 (3 / 10) = 5404319552844595 / 2 ^ 54"
  using binary64_eval [of "- 2" "3 / 10"] by (simp add: pow2_def round_half_even_def)

lemma binary64_9_10: "binary64 (9 / 10) = 8106479329266893 / 2 ^ 53"
  using binary64_eval [of "- 1" "9 / 10"] by (simp add: pow2_def round_half_even_def)

lemma binary64_headroom:
  "binary64 (8106479329266893 / 2 ^ 53 - 5404319552844595 / 2 ^ 54) = 5404319552844596 / 2 ^ 53"
  using binary64_eval [of "- 1" "8106479329266893 / 2 ^ 53 - 5404319552844595 / 2 ^ 54"]
  by (simp add: pow2_def round_half_even_def)

lemma binary64_floor:
  "binary64 (0 - 5404319552844595 / 2 ^ 54) = - (5404319552844595 / 2 ^ 54)"
  using binary64_eval [of "- 2" "0 - 5404319552844595 / 2 ^ 54"]
  by (simp add: pow2_def round_half_even_def)

lemma binary64_1: "binary64 1 = 1" "binary64 (- 1) = - 1" "binary64 0 = 0"
  using binary64_eval [of 0 1] binary64_eval [of 0 "- 1"]
  by (simp_all add: pow2_def round_half_even_def binary64_def)

lemma cumsum_from_fl_exact: "cumsum_from_fl (\<lambda>x. x) s xs = cumsum_from s xs"
  by (induction xs arbitrary: s) simp_all

lemma cumsum_fl_exact: "cumsum_fl (\<lambda>x. x) xs = cumsum xs"
  by (cases xs) (simp_all add: cumsum_fl_def cumsum_def cumsum_from_fl_exact)

lemma ramp_fl_exact:
  "ramp_up_fl (\<lambda>x. x) a time = ramp_up a time"
  "ramp_down_fl (\<lambda>x. x) a time = ramp_down a time"
  by (simp_all add: ramp_up_fl_def ramp_up_def ramp_down_fl_def ramp_down_def)

lemma limit_fl_exact:
  "limit_up_fl (\<lambda>x. x) e dt up = limit_up e dt up"
  "limit_down_fl (\<lambda>x. x) e dt down = limit_down e dt down"
  by (simp_all add: limit_up_fl_def limit_up_def limit_down_fl_def limit_down_def cumsum_fl_exact)

lemma get_asset_flexibility_fl_exact:
  "get_asset_flexibility_fl (\<lambda>x. x) asset time = get_asset_flexibility asset time"
  by (simp add: get_asset_flexibility_fl_def get_asset_flexibility_def ramp_fl_exact
      limit_fl_exact Let_def split: option.splits)

lemma length_ramp_up_fl [simp]: "length (ramp_up_fl rnd a time) = length time"
  by (simp add: ramp_up_fl_def Let_def)

lemma length_ramp_down_fl [simp]: "length (ramp_down_fl rnd a time) = length time"
  by (simp add: ramp_down_fl_def Let_def)

lemma ramp_up_fl_le:
  "i < length time \<Longrightarrow> ramp_up_fl rnd a time ! i \<le> rnd (Max_Output a - Output a)"
  by (simp add: ramp_up_fl_def Let_def)

lemma ramp_down_fl_ge:
  "i < length time \<Longrightarrow> rnd (Min_Output a - Output a) \<le> ramp_down_fl rnd a time ! i"
  by (simp add: ramp_down_fl_def Let_def)

lemma length_cumsum_from_fl [simp]: "length (cumsum_from_fl rnd s xs) = length xs"
  by (induction xs arbitrary: s) simp_all

lemma length_cumsum_fl [simp]: "length (cumsum_fl rnd xs) = length xs"
  by (cases xs) (simp_all add: cumsum_fl_def)

lemma limit_up_fl_nth:
  "i < length up \<Longrightarrow> limit_up_fl rnd e dt up ! i = 0 \<or> limit_up_fl rnd e dt up ! i = up ! i"
  by (simp add: limit_up_fl_def)

lemma limit_down_fl_nth:
  "i < length down \<Longrightarrow>
     limit_down_fl rnd e dt down ! i = 0 \<or> limit_down_fl rnd e dt down ! i = down ! i"
  by (simp add: limit_down_fl_def)

lemma get_asset_flexibility_fl_arrays:
  assumes "Charge a = None \<or> (Energy a \<noteq> None \<and> 2 \<le> length time)"
  shows "\<exists>up down. get_asset_flexibility_fl rnd (Some a) time
            = Inr \<lparr>Up = Arr up, Down = Arr down, flex_Output = Output a\<rparr>
          \<and> length up = length time \<and> length down = length time
          \<and> (\<forall>i<length time. (up ! i = 0 \<or> up ! i = ramp_up_fl rnd a time ! i)
                \<and> (down ! i = 0 \<or> down ! i = ramp_down_fl rnd a time ! i))"
proof (cases "Charge a")
  case None
  then show ?thesis by (simp add: get_asset_flexibility_fl_def)
next
  case (Some charge)
  with assms obtain energy where e: "Energy a = Some energy" and n: "2 \<le> length time"
    by auto
  let ?up = "limit_up_fl rnd (rnd (rnd (charge * energy) / 100)) (rnd (time ! 1 - time ! 0))
      (ramp_up_fl rnd a time)"
  let ?down = "limit_down_fl rnd (rnd (energy - rnd (rnd (charge * energy) / 100)))
      (rnd (time ! 1 - time ! 0)) (ramp_down_fl rnd a time)"
  from Some e n have "get_asset_flexibility_fl rnd (Some a) time
      = Inr \<lparr>Up = Arr ?up, Down = Arr ?down, flex_Output = Output a\<rparr>"
    by (simp add: get_asset_flexibility_fl_def Let_def)
  moreover have "length ?up = length time" "length ?down = length time"
    by (simp_all add: limit_up_fl_def limit_down_fl_def)
  moreover have "\<forall>i<length time. (?up ! i = 0 \<or> ?up ! i = ramp_up_fl rnd a time ! i)
                \<and> (?down ! i = 0 \<or> ?down ! i = ramp_down_fl rnd a time ! i)"
    using limit_up_fl_nth [of _ "ramp_up_fl rnd a time" rnd]
      limit_down_fl_nth [of _ "ramp_down_fl rnd a time" rnd] by simp
  ultimately show ?thesis by blast
qed

lemma rounding_asset_fields:
  "Min_Output rounding_asset = 0" "Latency rounding_asset = 0" "Ramp_Up rounding_asset = 1"
  "Ramp_Down rounding_asset = 1" "Charge rounding_asset = None"
  by (simp_all add: rounding_asset_def)

lemma rounding_asset_output:
  "Output rounding_asset = 5404319552844595 / 2 ^ 54"
  "Max_Output rounding_asset = 8106479329266893 / 2 ^ 53"
  by (simp_all add: rounding_asset_def binary64_3_10 binary64_9_10)

lemma rounding_asset_headroom:
  "binary64 (Max_Output rounding_asset - Output rounding_asset) = 5404319552844596 / 2 ^ 53"
  using binary64_eval [of "- 1" "Max_Output rounding_asset - Output rounding_asset"]
  by (simp add: rounding_asset_output pow2_def round_half_even_def)

lemma rounding_asset_floor:
  "binary64 (0 - Output rounding_asset) = - (5404319552844595 / 2 ^ 54)"
  using binary64_eval [of "- 2" "0 - Output rounding_asset"]
  by (simp add: rounding_asset_output pow2_def round_half_even_def)

lemma rounding_asset_flexibility:
  "get_asset_flexibility_fl binary64 (Some rounding_asset) [1]
     = Inr \<lparr>Up = Arr [5404319552844596 / 2 ^ 53], Down = Arr [- (5404319552844595 / 2 ^ 54)],
            flex_Output = Output rounding_asset\<rparr>"
proof -
  have u: "ramp_up_fl binary64 rounding_asset [1] = [5404319552844596 / 2 ^ 53]"
    unfolding ramp_up_fl_def Let_def rounding_asset_fields rounding_asset_headroom
    by (simp add: binary64_1)
  have d: "ramp_down_fl binary64 rounding_asset [1] = [- (5404319552844595 / 2 ^ 54)]"
    unfolding ramp_down_fl_def Let_def rounding_asset_fields rounding_asset_floor
    by (simp add: binary64_1)
  show ?thesis
    by (simp add: get_asset_flexibility_fl_def u d rounding_asset_fields)
qed

section \<open>The absent asset\<close>

text \<open>
  Claim C6. For an absent asset \<open>get_asset_flexibility\<close> returns the zero envelope:
  \<open>Up\<close> and \<open>Down\<close> are the scalar 0, which numpy adds to every entry of an array,
  and the output is 0. This envelope is an identity of the aggregation: in whichever of the
  five positions it stands, the aggregate (or the exception raised) is that of the four
  other envelopes alone.
\<close>

theorem absent_asset_is_aggregation_identity:
  "\<exists>z. get_asset_flexibility None time = Inr z
     \<and> Up z = Scalar 0 \<and> Down z = Scalar 0 \<and> flex_Output z = 0
     \<and> flexibility_aggreagation z a b c d = aggregation_of_four a b c d
     \<and> flexibility_aggreagation a z b c d = aggregation_of_four a b c d
     \<and> flexibility_aggreagation a b z c d = aggregation_of_four a b c d
     \<and> flexibility_aggreagation a b c z d = aggregation_of_four a b c d
     \<and> flexibility_aggreagation a b c d z = aggregation_of_four a b c d"
  by (simp add: get_asset_flexibility_def flexibility_aggreagation_def aggregation_of_four_def
      np_add5_zero)

section \<open>Assets without energy fields\<close>

text \<open>
  Claim C2. For an asset without the key \<open>'Charge'\<close> the call returns arrays over the
  time grid with
  \<open>up(t) = min (max (rampUp * (t - latency)) 0) (maxOutput - output)\<close> and
  \<open>down(t) = max (min (- rampDown * (t - latency)) 0) (minOutput - output)\<close>,
  and the output of the asset unchanged. For the gas asset on the grid \<open>[0.5, 2, 3]\<close>
  the upward values are 0, 1 and 2.
\<close>

theorem envelope_without_energy_fields:
  "(Charge a = None \<longrightarrow>
      (\<exists>up down. get_asset_flexibility (Some a) time
           = Inr \<lparr>Up = Arr up, Down = Arr down, flex_Output = Output a\<rparr>
         \<and> length up = length time \<and> length down = length time
         \<and> (\<forall>i<length time.
              up ! i = min (max (Ramp_Up a * (time ! i - Latency a)) 0) (Max_Output a - Output a)
            \<and> down ! i = max (min (- Ramp_Down a * (time ! i - Latency a)) 0)
                           (Min_Output a - Output a))))
   \<and> (\<exists>down. get_asset_flexibility (Some gas_asset) [1 / 2, 2, 3]
         = Inr \<lparr>Up = Arr [0, 1, 2], Down = Arr down, flex_Output = 7\<rparr>)"
proof (intro conjI impI)
  assume "Charge a = None"
  then have "get_asset_flexibility (Some a) time
      = Inr \<lparr>Up = Arr (ramp_up a time), Down = Arr (ramp_down a time), flex_Output = Output a\<rparr>"
    by (simp add: get_asset_flexibility_def)
  then show "\<exists>up down. get_asset_flexibility (Some a) time
           = Inr \<lparr>Up = Arr up, Down = Arr down, flex_Output = Output a\<rparr>
         \<and> length up = length time \<and> length down = length time
         \<and> (\<forall>i<length time.
              up ! i = min (max (Ramp_Up a * (time ! i - Latency a)) 0) (Max_Output a - Output a)
            \<and> down ! i = max (min (- Ramp_Down a * (time ! i - Latency a)) 0)
                           (Min_Output a - Output a))"
    using ramp_up_nth ramp_down_nth by auto
next
  show "\<exists>down. get_asset_flexibility (Some gas_asset) [1 / 2, 2, 3]
         = Inr \<lparr>Up = Arr [0, 1, 2], Down = Arr down, flex_Output = 7\<rparr>"
    by (simp add: get_asset_flexibility_def gas_asset_def ramp_up_def ramp_down_def)
qed

text \<open>
  The hydro asset on the grid \<open>[0.5, 2, 8]\<close>: nothing before the latency has elapsed,
  the ramp at \<open>t = 2\<close>, and both clamps at \<open>t = 8\<close>.
\<close>

theorem envelope_without_energy_fields_witness:
  "Charge hydro_asset = None
   \<and> (\<exists>up down. get_asset_flexibility (Some hydro_asset) [1 / 2, 2, 8]
          = Inr \<lparr>Up = Arr up, Down = Arr down, flex_Output = 5\<rparr>
        \<and> up ! 0 = 0 \<and> up ! 1 = 1 \<and> up ! 2 = 5
        \<and> down ! 0 = 0 \<and> down ! 1 = - (5 / 2) \<and> down ! 2 = - 5)"
proof -
  have c: "Charge hydro_asset = None"
    by (simp add: hydro_asset_def)
  with envelope_without_energy_fields [of hydro_asset "[1 / 2, 2, 8]"]
  obtain up down where
    r: "get_asset_flexibility (Some hydro_asset) [1 / 2, 2, 8]
          = Inr \<lparr>Up = Arr up, Down = Arr down, flex_Output = Output hydro_asset\<rparr>" and
    f: "\<forall>i<length [1 / 2, 2, 8 :: real].
          up ! i = min (max (Ramp_Up hydro_asset * ([1 / 2, 2, 8] ! i - Latency hydro_asset)) 0)
                     (Max_Output hydro_asset - Output hydro_asset)
        \<and> down ! i = max (min (- Ramp_Down hydro_asset * ([1 / 2, 2, 8] ! i - Latency hydro_asset)) 0)
                        (Min_Output hydro_asset - Output hydro_asset)"
    by blast
  from f have "up ! 0 = 0 \<and> down ! 0 = 0"
    by (simp add: hydro_asset_def)
  moreover from f have "up ! 1 = 1 \<and> down ! 1 = - (5 / 2)"
    by (simp add: hydro_asset_def)
  moreover from f have "up ! 2 = 5 \<and> down ! 2 = - 5"
    by (simp add: hydro_asset_def)
  ultimately show ?thesis
    using c r by (simp add: hydro_asset_def)
qed

text \<open>
  Claim C7, as amended. For a rounding that keeps the sign, an asset whose output lies
  within its operating bounds and every index of the grid, the returned envelope has
  \<open>up(t) \<le> h\<close> and \<open>down(t) \<ge> l\<close>, where \<open>h\<close> and \<open>l\<close> are the
  differences \<open>maxOutput - output\<close> and \<open>minOutput - output\<close> as the program
  computes them, that is rounded; this includes a storage asset after the energy limit.
  Where such a difference is computed without rounding error,
  \<open>output + up(t) \<le> maxOutput\<close>, respectively \<open>output + down(t) \<ge> minOutput\<close>,
  follows. The call returns whenever the asset has no key \<open>'Charge'\<close>, or has the key
  \<open>'Energy'\<close> too and the grid has two points for the step.
\<close>

theorem envelope_within_rounded_bounds:
  assumes "\<forall>x. 0 \<le> x \<longrightarrow> 0 \<le> rnd x" and "\<forall>x. x \<le> 0 \<longrightarrow> rnd x \<le> 0"
    and "Min_Output a \<le> Output a" and "Output a \<le> Max_Output a"
    and "Charge a = None \<or> (Energy a \<noteq> None \<and> 2 \<le> length time)"
  shows "\<exists>up down. get_asset_flexibility_fl rnd (Some a) time
            = Inr \<lparr>Up = Arr up, Down = Arr down, flex_Output = Output a\<rparr>
          \<and> length up = length time \<and> length down = length time
          \<and> (\<forall>i<length time.
                up ! i \<le> rnd (Max_Output a - Output a)
              \<and> rnd (Min_Output a - Output a) \<le> down ! i
              \<and> (rnd (Max_Output a - Output a) = Max_Output a - Output a
                    \<longrightarrow> Output a + up ! i \<le> Max_Output a)
              \<and> (rnd (Min_Output a - Output a) = Min_Output a - Output a
                    \<longrightarrow> Min_Output a \<le> Output a + down ! i))"
proof -
  from get_asset_flexibility_fl_arrays [OF assms(5), of rnd] obtain up down where
    r: "get_asset_flexibility_fl rnd (Some a) time
          = Inr \<lparr>Up = Arr up, Down = Arr down, flex_Output = Output a\<rparr>"
    and l: "length up = length time" "length down = length time"
    and v: "\<forall>i<length time. (up ! i = 0 \<or> up ! i = ramp_up_fl rnd a time ! i)
                \<and> (down ! i = 0 \<or> down ! i = ramp_down_fl rnd a time ! i)"
    by blast
  from assms(1,4) have h: "0 \<le> rnd (Max_Output a - Output a)" by simp
  from assms(2,3) have f: "rnd (Min_Output a - Output a) \<le> 0" by simp
  have b: "up ! i \<le> rnd (Max_Output a - Output a) \<and> rnd (Min_Output a - Output a) \<le> down ! i"
    if i: "i < length time" for i
  proof -
    from v i have u: "up ! i = 0 \<or> up ! i = ramp_up_fl rnd a time ! i"
      and d: "down ! i = 0 \<or> down ! i = ramp_down_fl rnd a time ! i" by auto
    from u h ramp_up_fl_le [OF i, of rnd a] have "up ! i \<le> rnd (Max_Output a - Output a)"
      by auto
    moreover from d f ramp_down_fl_ge [OF i, of rnd a]
    have "rnd (Min_Output a - Output a) \<le> down ! i"
      by auto
    ultimately show ?thesis ..
  qed
  have "up ! i \<le> rnd (Max_Output a - Output a)
      \<and> rnd (Min_Output a - Output a) \<le> down ! i
      \<and> (rnd (Max_Output a - Output a) = Max_Output a - Output a
            \<longrightarrow> Output a + up ! i \<le> Max_Output a)
      \<and> (rnd (Min_Output a - Output a) = Min_Output a - Output a
            \<longrightarrow> Min_Output a \<le> Output a + down ! i)"
    if i: "i < length time" for i
    using b [OF i] by auto
  with r l show ?thesis by blast
qed

text \<open>The asset with output \<open>0.3\<close> and maximum \<open>0.9\<close> in float64, on the grid \<open>[1]\<close>.\<close>

theorem envelope_within_rounded_bounds_witness:
  "Min_Output rounding_asset \<le> Output rounding_asset
   \<and> Output rounding_asset \<le> Max_Output rounding_asset
   \<and> (\<exists>up down. get_asset_flexibility_fl binary64 (Some rounding_asset) [1]
          = Inr \<lparr>Up = Arr up, Down = Arr down, flex_Output = Output rounding_asset\<rparr>
        \<and> up ! 0 \<le> 5404319552844596 / 2 ^ 53
        \<and> - (5404319552844595 / 2 ^ 54) \<le> down ! 0)"
proof -
  have s: "\<forall>x. 0 \<le> x \<longrightarrow> 0 \<le> binary64 x" "\<forall>x. x \<le> 0 \<longrightarrow> binary64 x \<le> 0"
    by (simp_all add: binary64_sign)
  have b: "Min_Output rounding_asset \<le> Output rounding_asset"
    "Output rounding_asset \<le> Max_Output rounding_asset"
    by (simp_all add: rounding_asset_output rounding_asset_fields)
  have c: "Charge rounding_asset = None \<or> (Energy rounding_asset \<noteq> None \<and> 2 \<le> length [1 :: real])"
    by (simp add: rounding_asset_fields)
  from envelope_within_rounded_bounds [OF s b c]
  obtain up down where
    r: "get_asset_flexibility_fl binary64 (Some rounding_asset) [1]
          = Inr \<lparr>Up = Arr up, Down = Arr down, flex_Output = Output rounding_asset\<rparr>" and
    f: "\<forall>i<length [1 :: real].
          up ! i \<le> binary64 (Max_Output rounding_asset - Output rounding_asset)
        \<and> binary64 (Min_Output rounding_asset - Output rounding_asset) \<le> down ! i
        \<and> (binary64 (Max_Output rounding_asset - Output rounding_asset)
               = Max_Output rounding_asset - Output rounding_asset
             \<longrightarrow> Output rounding_asset + up ! i \<le> Max_Output rounding_asset)
        \<and> (binary64 (Min_Output rounding_asset - Output rounding_asset)
               = Min_Output rounding_asset - Output rounding_asset
             \<longrightarrow> Min_Output rounding_asset \<le> Output rounding_asset + down ! i)"
    by blast
  from f have "up ! 0 \<le> binary64 (Max_Output rounding_asset - Output rounding_asset)"
    "binary64 (Min_Output rounding_asset - Output rounding_asset) \<le> down ! 0"
    by simp_all
  then have "up ! 0 \<le> 5404319552844596 / 2 ^ 53" "- (5404319552844595 / 2 ^ 54) \<le> down ! 0"
    unfolding rounding_asset_fields rounding_asset_headroom rounding_asset_floor by simp_all
  with r b show ?thesis by blast
qed

text \<open>
  Claim C7 as stated fails in float64: for the output \<open>0.3\<close> and the maximum
  \<open>0.9\<close> the headroom is rounded, as a tie, up to \<open>0.6000000000000001\<close>; the
  upward value at \<open>t = 1\<close> is this headroom, and the output plus it exceeds the
  maximum.
\<close>

theorem rounded_headroom_counterexample:
  "Output rounding_asset = 5404319552844595 / 2 ^ 54
   \<and> Max_Output rounding_asset = 8106479329266893 / 2 ^ 53
   \<and> Min_Output rounding_asset \<le> Output rounding_asset
   \<and> Output rounding_asset \<le> Max_Output rounding_asset
   \<and> get_asset_flexibility_fl binary64 (Some rounding_asset) [1]
       = Inr \<lparr>Up = Arr [5404319552844596 / 2 ^ 53], Down = Arr [- (5404319552844595 / 2 ^ 54)],
              flex_Output = Output rounding_asset\<rparr>
   \<and> Max_Output rounding_asset < Output rounding_asset + 5404319552844596 / 2 ^ 53"
  using rounding_asset_flexibility
  by (simp add: rounding_asset_output rounding_asset_fields)

text \<open>
  Claim C9, as amended. The function validates nothing: whatever the ramp rates, the
  latency and the output are, it raises only KeyError (the key \<open>'Charge'\<close> without
  the key \<open>'Energy'\<close>) or IndexError (a storage asset on a grid of fewer than two
  points), and returns an envelope in every other case.
\<close>

theorem get_asset_flexibility_fails_iff:
  "(get_asset_flexibility (Some a) time = Inl KeyError
      \<longleftrightarrow> Charge a \<noteq> None \<and> Energy a = None)
   \<and> (get_asset_flexibility (Some a) time = Inl IndexError
      \<longleftrightarrow> Charge a \<noteq> None \<and> Energy a \<noteq> None \<and> length time < 2)
   \<and> ((\<exists>f. get_asset_flexibility (Some a) time = Inr f)
      \<longleftrightarrow> Charge a = None \<or> (Energy a \<noteq> None \<and> 2 \<le> length time))"
proof (cases "Charge a")
  case None
  then show ?thesis
    by (simp add: get_asset_flexibility_def)
next
  case charge: (Some charge)
  show ?thesis
  proof (cases "Energy a")
    case None
    with charge show ?thesis
      by (simp add: get_asset_flexibility_def)
  next
    case energy: (Some energy)
    show ?thesis
    proof (cases "length time < 2")
      case True
      with charge energy show ?thesis
        by (simp add: get_asset_flexibility_def)
    next
      case False
      with charge energy show ?thesis
        by (simp add: get_asset_flexibility_def Let_def)
    qed
  qed
qed

text \<open>The asset that breaks every rule of the data model is given an envelope.\<close>

theorem get_asset_flexibility_fails_iff_witness:
  "Charge invalid_asset = None
   \<and> (\<exists>f. get_asset_flexibility (Some invalid_asset) [1, 2] = Inr f)"
  using get_asset_flexibility_fails_iff [of invalid_asset "[1, 2]"]
  by (simp add: invalid_asset_def)

text \<open>
  Claim C9 as stated fails: the invalid asset has negative ramp rates, a negative latency
  and an output above its maximum, and the call returns the clamped arrays instead of an
  error.
\<close>

theorem invalid_asset_counterexample:
  "Ramp_Up invalid_asset \<le> 0 \<and> Ramp_Down invalid_asset \<le> 0 \<and> Latency invalid_asset < 0
   \<and> Max_Output invalid_asset < Output invalid_asset
   \<and> get_asset_flexibility (Some invalid_asset) [1, 2]
       = Inr \<lparr>Up = Arr [- 10, - 10], Down = Arr [0, 0], flex_Output = 20\<rparr>"
  by (simp add: get_asset_flexibility_def invalid_asset_def ramp_up_def ramp_down_def)

section \<open>Storage assets\<close>

text \<open>
  Claim C10. For a storage asset on a grid whose first step is not negative: when the
  values before the limit are nonnegative, the upward value is zero at every index from
  any index on at which the running sum times \<open>dt\<close> exceeds the energy to empty,
  and it is the value before the limit at every index that no such index precedes; so
  the zeroed indices are a suffix of the grid. The test uses the running sums of the
  values before the limit. The same holds for the downward values, when nonpositive,
  against the energy to full.
\<close>

theorem energy_limit_zeroes_suffix:
  assumes "Charge a = Some charge" and "Energy a = Some energy" and "2 \<le> length time"
    and "time ! 0 \<le> time ! 1"
  shows "\<exists>up down. get_asset_flexibility (Some a) time
            = Inr \<lparr>Up = Arr up, Down = Arr down, flex_Output = Output a\<rparr>
      \<and> length up = length time \<and> length down = length time
      \<and> ((\<forall>u\<in>set (ramp_up a time). 0 \<le> u) \<longrightarrow>
           (\<forall>k i. k \<le> i \<and> i < length time
               \<and> running_energy (ramp_up a time) (time ! 1 - time ! 0) k > charge * energy / 100
               \<longrightarrow> up ! i = 0)
         \<and> (\<forall>i<length time.
               (\<forall>k\<le>i. \<not> running_energy (ramp_up a time) (time ! 1 - time ! 0) k
                            > charge * energy / 100)
               \<longrightarrow> up ! i = ramp_up a time ! i))
      \<and> ((\<forall>d\<in>set (ramp_down a time). d \<le> 0) \<longrightarrow>
           (\<forall>k i. k \<le> i \<and> i < length time
               \<and> - running_energy (ramp_down a time) (time ! 1 - time ! 0) k
                   > energy - charge * energy / 100
               \<longrightarrow> down ! i = 0)
         \<and> (\<forall>i<length time.
               (\<forall>k\<le>i. \<not> - running_energy (ramp_down a time) (time ! 1 - time ! 0) k
                            > energy - charge * energy / 100)
               \<longrightarrow> down ! i = ramp_down a time ! i))"
proof -
  let ?dt = "time ! 1 - time ! 0"
  let ?e = "charge * energy / 100"
  let ?up = "limit_up ?e ?dt (ramp_up a time)"
  let ?down = "limit_down (energy - ?e) ?dt (ramp_down a time)"
  have dt: "0 \<le> ?dt" using assms(4) by simp
  have r: "get_asset_flexibility (Some a) time
      = Inr \<lparr>Up = Arr ?up, Down = Arr ?down, flex_Output = Output a\<rparr>"
    by (rule get_asset_flexibility_storage [OF assms(1-3)])
  have u1: "?up ! i = 0"
    if "\<forall>u\<in>set (ramp_up a time). 0 \<le> u" "k \<le> i" "i < length time"
      "running_energy (ramp_up a time) ?dt k > ?e" for k i
  proof -
    from running_energy_mono [OF that(1) dt that(2)] that(4)
    have "running_energy (ramp_up a time) ?dt i > ?e" by simp
    with that(3) show ?thesis by (simp add: limit_up_nth)
  qed
  have u2: "?up ! i = ramp_up a time ! i"
    if "i < length time" "\<forall>k\<le>i. \<not> running_energy (ramp_up a time) ?dt k > ?e" for i
  proof -
    from that(2) have "\<not> running_energy (ramp_up a time) ?dt i > ?e" by simp
    with that(1) show ?thesis by (simp add: limit_up_nth)
  qed
  have d1: "?down ! i = 0"
    if "\<forall>d\<in>set (ramp_down a time). d \<le> 0" "k \<le> i" "i < length time"
      "- running_energy (ramp_down a time) ?dt k > energy - ?e" for k i
  proof -
    from running_energy_antimono [OF that(1) dt that(2)] that(4)
    have "- running_energy (ramp_down a time) ?dt i > energy - ?e" by simp
    with that(3) show ?thesis by (simp add: limit_down_nth)
  qed
  have d2: "?down ! i = ramp_down a time ! i"
    if "i < length time" "\<forall>k\<le>i. \<not> - running_energy (ramp_down a time) ?dt k > energy - ?e" for i
  proof -
    from that(2) have "\<not> - running_energy (ramp_down a time) ?dt i > energy - ?e" by simp
    with that(1) show ?thesis by (simp add: limit_down_nth)
  qed
  show ?thesis
    apply (rule exI [of _ ?up], rule exI [of _ ?down])
    apply (intro conjI impI allI)
    subgoal by (rule r)
    subgoal by simp
    subgoal by simp
    subgoal for k i using u1 [of k i] by blast
    subgoal for i using u2 [of i] by blast
    subgoal for k i using d1 [of k i] by blast
    subgoal for i using d2 [of i] by blast
    done
qed

text \<open>
  The half-charged battery: both budgets are 2, the running energies are 1, 2, 3, 4, so
  the first two entries are kept and the last two are zero.
\<close>

theorem energy_limit_zeroes_suffix_witness:
  "Charge battery_asset = Some 50 \<and> Energy battery_asset = Some 4
   \<and> (\<exists>up down. get_asset_flexibility (Some battery_asset) [1, 2, 3, 4]
          = Inr \<lparr>Up = Arr up, Down = Arr down, flex_Output = 0\<rparr>
        \<and> up ! 0 = 1 \<and> up ! 3 = 0 \<and> down ! 0 = - 1 \<and> down ! 3 = 0)"
proof -
  let ?t = "[1, 2, 3, 4 :: real]"
  have ru: "ramp_up battery_asset ?t = [1, 1, 1, 1]"
    by (simp add: ramp_up_def battery_asset_def)
  have rd: "ramp_down battery_asset ?t = [- 1, - 1, - 1, - 1]"
    by (simp add: ramp_down_def battery_asset_def)
  have h: "Charge battery_asset = Some 50" "Energy battery_asset = Some 4" "2 \<le> length ?t"
    "?t ! 0 \<le> ?t ! 1"
    by (simp_all add: battery_asset_def)
  from energy_limit_zeroes_suffix [OF h]
  obtain up down where
    r: "get_asset_flexibility (Some battery_asset) ?t
          = Inr \<lparr>Up = Arr up, Down = Arr down, flex_Output = Output battery_asset\<rparr>" and
    u: "(\<forall>u\<in>set (ramp_up battery_asset ?t). 0 \<le> u) \<longrightarrow>
           (\<forall>k i. k \<le> i \<and> i < length ?t
               \<and> running_energy (ramp_up battery_asset ?t) (?t ! 1 - ?t ! 0) k > 50 * 4 / 100
               \<longrightarrow> up ! i = 0)
         \<and> (\<forall>i<length ?t.
               (\<forall>k\<le>i. \<not> running_energy (ramp_up battery_asset ?t) (?t ! 1 - ?t ! 0) k
                            > 50 * 4 / 100)
               \<longrightarrow> up ! i = ramp_up battery_asset ?t ! i)" and
    d: "(\<forall>d\<in>set (ramp_down battery_asset ?t). d \<le> 0) \<longrightarrow>
           (\<forall>k i. k \<le> i \<and> i < length ?t
               \<and> - running_energy (ramp_down battery_asset ?t) (?t ! 1 - ?t ! 0) k
                   > 4 - 50 * 4 / 100
               \<longrightarrow> down ! i = 0)
         \<and> (\<forall>i<length ?t.
               (\<forall>k\<le>i. \<not> - running_energy (ramp_down battery_asset ?t) (?t ! 1 - ?t ! 0) k
                            > 4 - 50 * 4 / 100)
               \<longrightarrow> down ! i = ramp_down battery_asset ?t ! i)"
    by blast
  have pu: "\<forall>u\<in>set (ramp_up battery_asset ?t). 0 \<le> u"
    unfolding ru by simp
  have pd: "\<forall>d\<in>set (ramp_down battery_asset ?t). d \<le> 0"
    unfolding rd by simp
  note ua = conjunct1 [OF mp [OF u pu]] and ub = conjunct2 [OF mp [OF u pu]]
  note da = conjunct1 [OF mp [OF d pd]] and db = conjunct2 [OF mp [OF d pd]]
  from ua [rule_format, of 2 3] have u3: "up ! 3 = 0"
    unfolding ru by (simp add: running_energy_def)
  from ub [rule_format, of 0] have u0: "up ! 0 = 1"
    unfolding ru by (simp add: running_energy_def)
  from da [rule_format, of 2 3] have d3: "down ! 3 = 0"
    unfolding rd by (simp add: running_energy_def)
  from db [rule_format, of 0] have d0: "down ! 0 = - 1"
    unfolding rd by (simp add: running_energy_def)
  from r u3 u0 d3 d0 show ?thesis
    by (simp add: battery_asset_def)
qed

text \<open>
  Claim C4, as amended. For a storage asset with charge 0 the energy to empty is 0 and
  limits the upward values: the upward value is zero at every index from any index on at
  which the running upward energy is positive. The downward values are tested against
  the energy to full, which is the whole capacity: the downward value at an index is
  zeroed exactly when the running downward energy there exceeds the capacity.
\<close>

theorem empty_storage_energy_limit:
  assumes "Charge a = Some 0" and "Energy a = Some energy" and "2 \<le> length time"
  shows "\<exists>up down. get_asset_flexibility (Some a) time
            = Inr \<lparr>Up = Arr up, Down = Arr down, flex_Output = Output a\<rparr>
      \<and> length up = length time \<and> length down = length time
      \<and> (\<forall>k i. k \<le> i \<and> i < length time
             \<and> running_energy (ramp_up a time) (time ! 1 - time ! 0) k > 0
             \<longrightarrow> up ! i = 0)
      \<and> (\<forall>i<length time.
             down ! i = (if - running_energy (ramp_down a time) (time ! 1 - time ! 0) i > energy
                         then 0 else ramp_down a time ! i))"
proof -
  let ?dt = "time ! 1 - time ! 0"
  let ?up = "limit_up 0 ?dt (ramp_up a time)"
  let ?down = "limit_down energy ?dt (ramp_down a time)"
  have r: "get_asset_flexibility (Some a) time
      = Inr \<lparr>Up = Arr ?up, Down = Arr ?down, flex_Output = Output a\<rparr>"
    using get_asset_flexibility_storage [OF assms] by simp
  have u: "?up ! i = 0"
    if "k \<le> i" "i < length time" "running_energy (ramp_up a time) ?dt k > 0" for k i
  proof -
    from that(2) have "i < length (ramp_up a time)" by simp
    from running_energy_positive_persists [OF ramp_up_sign that(1) this that(3)] that(2)
    show ?thesis by (simp add: limit_up_nth)
  qed
  have d: "?down ! i = (if - running_energy (ramp_down a time) ?dt i > energy
                         then 0 else ramp_down a time ! i)"
    if "i < length time" for i
    using that by (simp add: limit_down_nth)
  show ?thesis
    apply (rule exI [of _ ?up], rule exI [of _ ?down])
    apply (intro conjI impI allI)
    subgoal by (rule r)
    subgoal by simp
    subgoal by simp
    subgoal for k i using u [of k i] by blast
    subgoal for i using d [of i] by blast
    done
qed

text \<open>The empty battery of capacity 1000 on the grid \<open>[1, 2, 3]\<close>.\<close>

theorem empty_storage_energy_limit_witness:
  "Charge empty_battery = Some 0 \<and> Energy empty_battery = Some 1000
   \<and> (\<exists>up down. get_asset_flexibility (Some empty_battery) [1, 2, 3]
          = Inr \<lparr>Up = Arr up, Down = Arr down, flex_Output = 0\<rparr>
        \<and> up ! 2 = 0 \<and> down ! 2 = - 1)"
proof -
  let ?t = "[1, 2, 3 :: real]"
  have ru: "ramp_up empty_battery ?t = [1, 1, 1]"
    by (simp add: ramp_up_def empty_battery_def)
  have rd: "ramp_down empty_battery ?t = [- 1, - 1, - 1]"
    by (simp add: ramp_down_def empty_battery_def)
  have h: "Charge empty_battery = Some 0" "Energy empty_battery = Some 1000" "2 \<le> length ?t"
    by (simp_all add: empty_battery_def)
  from empty_storage_energy_limit [OF h]
  obtain up down where
    r: "get_asset_flexibility (Some empty_battery) ?t
          = Inr \<lparr>Up = Arr up, Down = Arr down, flex_Output = Output empty_battery\<rparr>" and
    u: "\<forall>k i. k \<le> i \<and> i < length ?t
             \<and> running_energy (ramp_up empty_battery ?t) (?t ! 1 - ?t ! 0) k > 0
             \<longrightarrow> up ! i = 0" and
    d: "\<forall>i<length ?t.
             down ! i = (if - running_energy (ramp_down empty_battery ?t) (?t ! 1 - ?t ! 0) i > 1000
                         then 0 else ramp_down empty_battery ?t ! i)"
    by blast
  from u [rule_format, of 0 2] have u2: "up ! 2 = 0"
    unfolding ru by (simp add: running_energy_def)
  from d [rule_format, of 2] have d2: "down ! 2 = - 1"
    unfolding rd by (simp add: running_energy_def)
  from r u2 d2 show ?thesis
    by (simp add: empty_battery_def)
qed

text \<open>
  Claim C4 as stated fails: for the empty battery the running downward energy exceeds 0
  from the first index on, and no downward value is zero; the upward values are.
\<close>

theorem empty_storage_down_counterexample:
  "Charge empty_battery = Some 0
   \<and> get_asset_flexibility (Some empty_battery) [1, 2, 3]
       = Inr \<lparr>Up = Arr [0, 0, 0], Down = Arr [- 1, - 1, - 1], flex_Output = 0\<rparr>
   \<and> - running_energy (ramp_down empty_battery [1, 2, 3]) ([1, 2, 3] ! 1 - [1, 2, 3] ! 0) 0 > 0
   \<and> [- 1, - 1, - 1 :: real] ! 0 \<noteq> 0
   \<and> [- 1, - 1, - 1 :: real] ! 1 \<noteq> 0
   \<and> [- 1, - 1, - 1 :: real] ! 2 \<noteq> 0"
  by (simp add: get_asset_flexibility_def empty_battery_def ramp_up_def ramp_down_def
      limit_up_def limit_down_def cumsum_def running_energy_def)

section \<open>The disturbance solver\<close>

text \<open>
  Claim C1. For arrays of equal length, when \<open>j\<close> is the least index with
  \<open>upper[j] < up[j]\<close> and \<open>i\<close> the least index with \<open>lower[i] > down[i]\<close>
  (strict comparisons, so equality is not a crossing), the solver returns the upper curve
  and the time at \<open>j\<close> and the lower curve and the time at \<open>i\<close>.
\<close>

theorem first_crossings_reported:
  assumes len: "length (upper c) = length time" "length (lower c) = length time"
      "length up = length time" "length down = length time"
    and env: "Up sf = Arr up" "Down sf = Arr down"
    and j: "j < length time" "upper c ! j < up ! j" "\<forall>k<j. \<not> upper c ! k < up ! k"
    and i: "i < length time" "lower c ! i > down ! i" "\<forall>k<i. \<not> lower c ! k > down ! k"
  shows "get_max_min_disturbance sf c time
           = Inr \<lparr>max_dist = upper c ! j, min_dist = lower c ! i,
                  max_dist_time = time ! j, min_dist_time = time ! i\<rparr>"
proof -
  let ?is_down = "map (\<lambda>(x, y). x > y) (zip (lower c) down)"
  let ?is_up = "map (\<lambda>(x, y). x < y) (zip (upper c) up)"
  have d: "np_greater (lower c) (Down sf) = Inr ?is_down"
    using len env by (simp add: broadcast_def)
  have u: "np_less (upper c) (Up sf) = Inr ?is_up"
    using len env by (simp add: broadcast_def)
  have fd: "first_elem (argwhere ?is_down) = Inr i"
    using len i by (intro first_argwhere_least) simp_all
  have fu: "first_elem (argwhere ?is_up) = Inr j"
    using len j by (intro first_argwhere_least) simp_all
  show ?thesis
    using len i(1) j(1) by (simp add: get_max_min_disturbance_def d u fd fu np_get_def)
qed

text \<open>
  On the sample curve the upward comparison is an equality at index 1 and strict at
  index 2; the downward one is strict at index 1.
\<close>

theorem first_crossings_reported_witness:
  "get_max_min_disturbance sample_flex sample_curve [1, 2, 3]
     = Inr \<lparr>max_dist = 1, min_dist = - 2, max_dist_time = 3, min_dist_time = 2\<rparr>"
proof -
  have "get_max_min_disturbance sample_flex sample_curve [1, 2, 3]
     = Inr \<lparr>max_dist = upper sample_curve ! 2, min_dist = lower sample_curve ! 1,
            max_dist_time = [1, 2, 3] ! 2, min_dist_time = [1, 2, 3] ! 1\<rparr>"
  proof (rule first_crossings_reported [where up = "[0, 2, 3]" and down = "[0, - 3, - 3]"])
    show "\<forall>k<2. \<not> upper sample_curve ! k < [0, 2, 3] ! k"
      by (simp add: sample_curve_def less_Suc_eq numeral_2_eq_2)
    show "\<forall>k<1. \<not> lower sample_curve ! k > [0, - 3, - 3] ! k"
      by (simp add: sample_curve_def)
  qed (simp_all add: sample_curve_def sample_flex_def)
  then show ?thesis
    by (simp add: sample_curve_def)
qed

text \<open>
  Claim C8. For arrays of equal length the solver fails exactly when the crossing
  condition holds at no index in at least one direction. The failure is the IndexError
  that \<open>[0]\<close> raises on the empty result of \<open>argwhere\<close> (the specification calls
  it NoCrossingFound); a failed call returns no record at all, and a record is returned
  exactly when both directions cross.
\<close>

theorem no_crossing_fails:
  assumes len: "length (upper c) = length time" "length (lower c) = length time"
      "length up = length time" "length down = length time"
    and env: "Up sf = Arr up" "Down sf = Arr down"
  shows "(get_max_min_disturbance sf c time = Inl IndexError
            \<longleftrightarrow> (\<not> (\<exists>j<length time. upper c ! j < up ! j)
                 \<or> \<not> (\<exists>i<length time. lower c ! i > down ! i)))
       \<and> ((\<exists>r. get_max_min_disturbance sf c time = Inr r)
            \<longleftrightarrow> ((\<exists>j<length time. upper c ! j < up ! j)
                 \<and> (\<exists>i<length time. lower c ! i > down ! i)))"
proof -
  let ?is_down = "map (\<lambda>(x, y). x > y) (zip (lower c) down)"
  let ?is_up = "map (\<lambda>(x, y). x < y) (zip (upper c) up)"
  have d: "np_greater (lower c) (Down sf) = Inr ?is_down"
    using len env by (simp add: broadcast_def)
  have u: "np_less (upper c) (Up sf) = Inr ?is_up"
    using len env by (simp add: broadcast_def)
  have nd: "first_elem (argwhere ?is_down) = Inl IndexError
      \<longleftrightarrow> \<not> (\<exists>i<length time. lower c ! i > down ! i)"
    using len by (simp add: first_argwhere_none)
  have nu: "first_elem (argwhere ?is_up) = Inl IndexError
      \<longleftrightarrow> \<not> (\<exists>j<length time. upper c ! j < up ! j)"
    using len by (simp add: first_argwhere_none)
  show ?thesis
  proof (cases "first_elem (argwhere ?is_down)")
    case (Inl e)
    then have "e = IndexError" by (auto simp add: first_elem_def split: list.splits)
    with Inl nd have "\<not> (\<exists>i<length time. lower c ! i > down ! i)" by simp
    moreover from Inl \<open>e = IndexError\<close>
    have "get_max_min_disturbance sf c time = Inl IndexError"
      by (simp add: get_max_min_disturbance_def d)
    ultimately show ?thesis by simp
  next
    case down: (Inr idx_down)
    with nd have xd: "\<exists>i<length time. lower c ! i > down ! i" by auto
    from down have bd: "idx_down < length time"
      using first_argwhere_bound [of ?is_down idx_down] len by simp
    show ?thesis
    proof (cases "first_elem (argwhere ?is_up)")
      case (Inl e)
      then have "e = IndexError" by (auto simp add: first_elem_def split: list.splits)
      with Inl nu have "\<not> (\<exists>j<length time. upper c ! j < up ! j)" by simp
      moreover from Inl \<open>e = IndexError\<close> down
      have "get_max_min_disturbance sf c time = Inl IndexError"
        by (simp add: get_max_min_disturbance_def d u)
      ultimately show ?thesis by simp
    next
      case up: (Inr idx_up)
      with nu have xu: "\<exists>j<length time. upper c ! j < up ! j" by auto
      from up have bu: "idx_up < length time"
        using first_argwhere_bound [of ?is_up idx_up] len by simp
      from down up bd bu len
      have "\<exists>r. get_max_min_disturbance sf c time = Inr r"
        by (simp add: get_max_min_disturbance_def d u np_get_def)
      with xd xu show ?thesis by auto
    qed
  qed
qed

text \<open>An envelope that never rises above the curve, and one that crosses it.\<close>

theorem no_crossing_fails_witness:
  "get_max_min_disturbance tiny_flex sample_curve [1, 2, 3] = Inl IndexError
   \<and> (\<exists>r. get_max_min_disturbance sample_flex sample_curve [1, 2, 3] = Inr r)"
proof -
  have n: "\<not> (\<exists>j<length [1, 2, 3 :: real]. upper sample_curve ! j < [0, 0, 0] ! j)"
    by (simp add: sample_curve_def numeral_3_eq_3 Ex_less_Suc)
  have "get_max_min_disturbance tiny_flex sample_curve [1, 2, 3] = Inl IndexError"
    using no_crossing_fails [of sample_curve "[1, 2, 3]" "[0, 0, 0]" "[0, - 3, - 3]" tiny_flex] n
    by (simp add: sample_curve_def tiny_flex_def)
  moreover have "\<exists>j<length [1, 2, 3 :: real]. upper sample_curve ! j < [0, 2, 3] ! j"
    by (rule exI [of _ 2]) (simp add: sample_curve_def)
  moreover have "\<exists>i<length [1, 2, 3 :: real]. lower sample_curve ! i > [0, - 3, - 3] ! i"
    by (rule exI [of _ 1]) (simp add: sample_curve_def)
  ultimately show ?thesis
    using no_crossing_fails [of sample_curve "[1, 2, 3]" "[0, 2, 3]" "[0, - 3, - 3]" sample_flex]
    by (simp add: sample_curve_def sample_flex_def)
qed

section \<open>The power disturbance curve\<close>

text \<open>
  Claim C3. For a system with nonzero frequency and a nonzero grid point \<open>t\<close>, the
  curve is \<open>upper(t) = (K - K_min) / t\<close> and \<open>lower(t) = - (K_max - K) / t\<close>, where
  \<open>K_min\<close> and \<open>K_max\<close> are \<open>J \<omega>\<^sup>2 / 2\<close> at the frequency limits and \<open>J\<close> is
  the moment with \<open>K = J \<omega>\<^sup>2 / 2\<close> at the current frequency; equivalently
  \<open>upper(t) = K (1 - (freqMin / freq)\<^sup>2) / t\<close> and
  \<open>lower(t) = - K ((freqMax / freq)\<^sup>2 - 1) / t\<close>.
\<close>

theorem disturbance_curve_from_kinetic_energy:
  assumes "freq sys \<noteq> 0" and "i < length time" and "time ! i \<noteq> 0"
  shows "\<exists>c J. get_power_disturbance_curve time sys = Inr c
      \<and> length (upper c) = length time \<and> length (lower c) = length time
      \<and> inertia sys = 1 / 2 * J * (4 * pi * freq sys / 2) ^ 2
      \<and> upper c ! i = (inertia sys - 1 / 2 * J * (4 * pi * freq_min sys / 2) ^ 2) / time ! i
      \<and> lower c ! i = - (1 / 2 * J * (4 * pi * freq_max sys / 2) ^ 2 - inertia sys) / time ! i
      \<and> upper c ! i = inertia sys * (1 - (freq_min sys / freq sys) ^ 2) / time ! i
      \<and> lower c ! i = - inertia sys * ((freq_max sys / freq sys) ^ 2 - 1) / time ! i"
proof -
  define J where "J = (2 * inertia sys) / ((4 * pi * freq sys / 2) ^ 2)"
  have k: "1 / 2 * J * (4 * pi * g / 2) ^ 2 = inertia sys * (g / freq sys) ^ 2" for g
    unfolding J_def by (rule kinetic_energy_ratio [OF assms(1)])
  have "inertia sys * (freq sys / freq sys) ^ 2 = inertia sys"
    using assms(1) by simp
  then have k0: "inertia sys = 1 / 2 * J * (4 * pi * freq sys / 2) ^ 2"
    by (simp only: k)
  define c where "c = \<lparr>lower = map (\<lambda>t. - (inertia sys * (freq_max sys / freq sys) ^ 2 - inertia sys) / t) time,
           upper = map (\<lambda>t. (inertia sys - inertia sys * (freq_min sys / freq sys) ^ 2) / t) time\<rparr>"
  have r: "get_power_disturbance_curve time sys = Inr c"
    unfolding c_def by (rule get_power_disturbance_curve_eq [OF assms(1)])
  have l: "length (upper c) = length time" "length (lower c) = length time"
    by (simp_all add: c_def)
  have u: "upper c ! i = (inertia sys - inertia sys * (freq_min sys / freq sys) ^ 2) / time ! i"
    using assms(2) by (simp add: c_def)
  have d: "lower c ! i = - (inertia sys * (freq_max sys / freq sys) ^ 2 - inertia sys) / time ! i"
    using assms(2) by (simp add: c_def)
  have u1: "upper c ! i = (inertia sys - 1 / 2 * J * (4 * pi * freq_min sys / 2) ^ 2) / time ! i"
    unfolding u k ..
  have d1: "lower c ! i = - (1 / 2 * J * (4 * pi * freq_max sys / 2) ^ 2 - inertia sys) / time ! i"
    unfolding d k ..
  have u2: "upper c ! i = inertia sys * (1 - (freq_min sys / freq sys) ^ 2) / time ! i"
    unfolding u by (simp add: algebra_simps)
  have d2: "lower c ! i = - inertia sys * ((freq_max sys / freq sys) ^ 2 - 1) / time ! i"
    unfolding d by (simp add: algebra_simps)
  from r l k0 u1 d1 u2 d2 show ?thesis
    by blast
qed

text \<open>The default system at \<open>t = 2\<close>.\<close>

theorem disturbance_curve_from_kinetic_energy_witness:
  "freq default_system \<noteq> 0
   \<and> (\<exists>c. get_power_disturbance_curve [1, 2] default_system = Inr c
        \<and> upper c ! 1 = 119 / 144 \<and> lower c ! 1 = - (121 / 144))"
proof -
  have "freq default_system \<noteq> 0" "1 < length [1, 2 :: real]" "[1, 2 :: real] ! 1 \<noteq> 0"
    by (simp_all add: default_system_def)
  from disturbance_curve_from_kinetic_energy [OF this]
  obtain c where "get_power_disturbance_curve [1, 2] default_system = Inr c"
    "upper c ! 1 = inertia default_system
        * (1 - (freq_min default_system / freq default_system) ^ 2) / [1, 2] ! 1"
    "lower c ! 1 = - inertia default_system
        * ((freq_max default_system / freq default_system) ^ 2 - 1) / [1, 2] ! 1"
    by blast
  then show ?thesis
    by (simp add: default_system_def power2_eq_square)
qed

text \<open>
  Claim C5, as amended. For a system with nonzero frequency and a nonzero grid point,
  \<open>upper(t) = - lower(t)\<close> holds exactly when the inertia is 0 or the squared
  frequency is midway between the squared limits,
  \<open>2 freq\<^sup>2 = freqMin\<^sup>2 + freqMax\<^sup>2\<close>. When the frequency itself is midway
  between the limits, it holds only for inertia 0 or equal limits.
\<close>

theorem disturbance_curve_symmetric_iff:
  assumes "freq sys \<noteq> 0" and "i < length time" and "time ! i \<noteq> 0"
  shows "\<exists>c. get_power_disturbance_curve time sys = Inr c
      \<and> length (upper c) = length time \<and> length (lower c) = length time
      \<and> (upper c ! i = - lower c ! i
           \<longleftrightarrow> inertia sys = 0 \<or> 2 * (freq sys) ^ 2 = (freq_min sys) ^ 2 + (freq_max sys) ^ 2)
      \<and> (freq sys = (freq_min sys + freq_max sys) / 2 \<longrightarrow>
           (upper c ! i = - lower c ! i \<longleftrightarrow> inertia sys = 0 \<or> freq_min sys = freq_max sys))"
proof -
  have e: "(inertia sys - inertia sys * (freq_min sys / freq sys) ^ 2) / time ! i
      = - (- (inertia sys * (freq_max sys / freq sys) ^ 2 - inertia sys) / time ! i)
    \<longleftrightarrow> inertia sys = 0 \<or> 2 * (freq sys) ^ 2 = (freq_min sys) ^ 2 + (freq_max sys) ^ 2"
    (is "?l = ?r")
  proof -
    have "?l \<longleftrightarrow> inertia sys - inertia sys * (freq_min sys / freq sys) ^ 2
        = inertia sys * (freq_max sys / freq sys) ^ 2 - inertia sys"
      using assms(3) by (simp add: divide_simps)
    also have "\<dots> \<longleftrightarrow> inertia sys * (2 * (freq sys) ^ 2)
        = inertia sys * ((freq_min sys) ^ 2 + (freq_max sys) ^ 2)"
      using assms(1) by (simp add: power_divide field_simps)
    also have "\<dots> \<longleftrightarrow> ?r" by simp
    finally show ?thesis .
  qed
  have m: "?l \<longleftrightarrow> inertia sys = 0 \<or> freq_min sys = freq_max sys"
    if h: "freq sys = (freq_min sys + freq_max sys) / 2"
  proof -
    have "2 * (freq sys) ^ 2 = (freq_min sys) ^ 2 + (freq_max sys) ^ 2
        \<longleftrightarrow> freq_min sys = freq_max sys"
      unfolding h by (rule midpoint_square_mean)
    with e show ?thesis by simp
  qed
  from e m show ?thesis
    using assms(2) by (simp add: get_power_disturbance_curve_eq [OF assms(1)])
qed

text \<open>The system with frequency 5 and limits 1 and 7: \<open>2 * 25 = 1 + 49\<close>.\<close>

theorem disturbance_curve_symmetric_iff_witness:
  "freq rms_system \<noteq> 0
   \<and> 2 * (freq rms_system) ^ 2 = (freq_min rms_system) ^ 2 + (freq_max rms_system) ^ 2
   \<and> (\<exists>c. get_power_disturbance_curve [1, 2] rms_system = Inr c
        \<and> upper c ! 1 = - lower c ! 1)"
proof -
  have "freq rms_system \<noteq> 0" "1 < length [1, 2 :: real]" "[1, 2 :: real] ! 1 \<noteq> 0"
    by (simp_all add: rms_system_def)
  from disturbance_curve_symmetric_iff [OF this]
  obtain c where "get_power_disturbance_curve [1, 2] rms_system = Inr c"
    "upper c ! 1 = - lower c ! 1
       \<longleftrightarrow> inertia rms_system = 0
         \<or> 2 * (freq rms_system) ^ 2 = (freq_min rms_system) ^ 2 + (freq_max rms_system) ^ 2"
    by blast
  then show ?thesis
    by (simp add: rms_system_def)
qed

text \<open>
  Claim C5 as stated fails: in the default system the frequency 60 is midway between 59
  and 61, and at \<open>t = 1\<close> the upper curve is \<open>119 / 72\<close> while the negated lower
  curve is \<open>121 / 72\<close>.
\<close>

theorem midway_frequency_counterexample:
  "freq default_system = (freq_min default_system + freq_max default_system) / 2
   \<and> get_power_disturbance_curve [1] default_system
       = Inr \<lparr>lower = [- (121 / 72)], upper = [119 / 72]\<rparr>
   \<and> (119 / 72 :: real) \<noteq> - (- (121 / 72))"
  by (simp add: get_power_disturbance_curve_eq default_system_def power2_eq_square)

end
